theory Spec2Isabelle
  imports Main "HOL-Library.Char_ord" "HOL-Library.List_Lexorder"
begin

section \<open>Exceptions and values\<close>

text \<open>
  A Python \<open>str\<close> is a \<^typ>\<open>string\<close> whose characters are the code points below 256.
  Every \<open>raise\<close> of \<open>prompt_manager_yml.py\<close> and of the library calls it makes is a value
  of \<open>exn\<close>; the payload is the exception's message, for \<open>KeyError\<close> the text of its
  first argument (what \<open>e.args[0]\<close> prints as). \<open>OtherError cls msg\<close> stands for any
  other subclass of \<open>Exception\<close> (\<open>AttributeError\<close>, \<open>TypeError\<close>, \<open>yaml.YAMLError\<close>,
  \<open>OSError\<close>, ...).
\<close>

datatype exn =
    PromptNotFoundError string
  | PromptRenderError string
  | KeyError string
  | ValueError string
  | IndexError string
  | OtherError string string

text \<open>
  A parameter value is a \<open>str\<close> or any other object. What Python does with an object
  (attribute access, subscription, \<open>repr\<close>/\<open>str\<close>/\<open>ascii\<close>, \<open>format\<close> with a format
  specification) belongs to the object and is an external collaborator of the formatter.
\<close>

datatype 'o pyval = PyStr string | PyObj 'o

datatype subscript = Index nat | Key string

record 'o py_ops =
  py_getattr :: "'o pyval \<Rightarrow> string \<Rightarrow> exn + 'o pyval"
  py_getitem :: "'o pyval \<Rightarrow> subscript \<Rightarrow> exn + 'o pyval"
  py_convert :: "char \<Rightarrow> 'o pyval \<Rightarrow> exn + 'o pyval"
  py_format :: "'o pyval \<Rightarrow> string \<Rightarrow> exn + string"

definition quote :: string where
  "quote = [CHR 0x27]"

section \<open>\<open>str.format\<close>: the markup iterator\<close>

text \<open>
  \<open>template.format(**params)\<close> and \<open>template.format_map(mapping)\<close> run the same
  left-to-right scanner (CPython \<open>Objects/stringlib/unicode_format.h\<close>): literal text up
  to the next brace, a doubled brace as an escaped brace, otherwise a replacement field
  \<open>{field_name!conversion:format_spec}\<close>. Each field is looked up and written before
  the scanner goes on, so the first failure from the left is the one raised.
\<close>

datatype field = Field string char string bool

definition is_brace :: "char \<Rightarrow> bool" where
  "is_brace c \<longleftrightarrow> c = CHR ''{'' \<or> c = CHR ''}''"

text \<open>
  The field name ends at \<open>}\<close>, \<open>:\<close> or \<open>!\<close>. After a \<open>[\<close> the scanner skips ahead
  to the next \<open>]\<close> (the flag), so that these characters may occur inside a subscript.
\<close>

fun scan_field_name :: "bool \<Rightarrow> string \<Rightarrow> string \<Rightarrow> exn + (string \<times> char \<times> string)" where
  "scan_field_name skipping acc [] =
     Inl (ValueError (''expected '' @ quote @ ''}'' @ quote @ '' before end of string''))"
| "scan_field_name True acc (c # cs) = scan_field_name (c \<noteq> CHR '']'') (acc @ [c]) cs"
| "scan_field_name False acc (c # cs) =
     (if c = CHR ''{'' then Inl (ValueError (''unexpected '' @ quote @ ''{'' @ quote @ '' in field name''))
      else if c = CHR ''['' then scan_field_name True (acc @ [c]) cs
      else if c = CHR ''}'' \<or> c = CHR '':'' \<or> c = CHR ''!'' then Inr (acc, c, cs)
      else scan_field_name False (acc @ [c]) cs)"

text \<open>The format specification ends at the \<open>}\<close> that closes the field; nested braces are counted.\<close>

fun scan_format_spec :: "nat \<Rightarrow> bool \<Rightarrow> string \<Rightarrow> string \<Rightarrow> exn + (string \<times> bool \<times> string)" where
  "scan_format_spec count needs acc [] =
     Inl (ValueError (''unmatched '' @ quote @ ''{'' @ quote @ '' in format spec''))"
| "scan_format_spec count needs acc (c # cs) =
     (if c = CHR ''{'' then scan_format_spec (Suc count) True (acc @ [c]) cs
      else if c = CHR ''}'' then
        (if count - 1 = 0 then Inr (acc, needs, cs)
         else scan_format_spec (count - 1) needs (acc @ [c]) cs)
      else scan_format_spec count needs (acc @ [c]) cs)"

definition parse_format_spec :: "string \<Rightarrow> char \<Rightarrow> string \<Rightarrow> exn + (field \<times> string)" where
  "parse_format_spec name conv s =
     (case scan_format_spec 1 False [] s of
        Inl e \<Rightarrow> Inl e
      | Inr (spec, needs, rest) \<Rightarrow> Inr (Field name conv spec needs, rest))"

text \<open>The conversion character \<open>CHR 0\<close> is CPython's "no conversion".\<close>

definition parse_field :: "string \<Rightarrow> exn + (field \<times> string)" where
  "parse_field s =
     (case scan_field_name False [] s of
        Inl e \<Rightarrow> Inl e
      | Inr (name, c, rest) \<Rightarrow>
          if c = CHR ''!'' then
            (case rest of
               [] \<Rightarrow> Inl (ValueError ''end of string while looking for conversion specifier'')
             | conv # rest2 \<Rightarrow>
                 (case rest2 of
                    [] \<Rightarrow> parse_format_spec name conv []
                  | c2 # rest3 \<Rightarrow>
                      if c2 = CHR ''}'' then Inr (Field name conv [] False, rest3)
                      else if c2 \<noteq> CHR '':'' then
                        Inl (ValueError (''expected '' @ quote @ '':'' @ quote @ '' after conversion specifier''))
                      else parse_format_spec name conv rest3))
          else if c = CHR '':'' then parse_format_spec name (CHR 0x00) rest
          else Inr (Field name (CHR 0x00) [] False, rest))"

datatype markup = Fail exn | Item string "field option" string

text \<open>
  One step of the iterator on a non-empty rest of the template: the literal text in front
  of the next brace, and the field that follows it, if any.
\<close>

definition markup_next :: "string \<Rightarrow> markup" where
  "markup_next s =
     (let lit = takeWhile (\<lambda>c. \<not> is_brace c) s; r = dropWhile (\<lambda>c. \<not> is_brace c) s
      in case r of
           [] \<Rightarrow> Item lit None []
         | c # r' \<Rightarrow>
             (case r' of
                [] \<Rightarrow>
                  Fail (ValueError (''Single '' @ quote @ [c] @ quote @ '' encountered in format string''))
              | d # r'' \<Rightarrow>
                  if c = CHR ''}'' \<and> d \<noteq> c then
                    Fail (ValueError (''Single '' @ quote @ ''}'' @ quote @ '' encountered in format string''))
                  else if d = c then Item (lit @ [c]) None r''
                  else (case parse_field r' of
                          Inl e \<Rightarrow> Fail e
                        | Inr (f, rest) \<Rightarrow> Item lit (Some f) rest)))"

section \<open>\<open>str.format\<close>: looking a field up\<close>

definition ssize_max :: nat where
  "ssize_max = 2 ^ 63 - 1"

definition digit_value :: "char \<Rightarrow> nat option" where
  "digit_value c =
     (if CHR ''0'' \<le> c \<and> c \<le> CHR ''9'' then Some (of_char c - of_char (CHR ''0'')) else None)"

text \<open>
  \<open>get_integer\<close>: \<open>None\<close> is CPython's \<open>-1\<close> ("not a number"); the overflow check runs digit
  by digit, before a later non-digit is seen.
\<close>

fun get_integer_from :: "nat \<Rightarrow> string \<Rightarrow> exn + nat option" where
  "get_integer_from accumulator [] = Inr (Some accumulator)"
| "get_integer_from accumulator (c # cs) =
     (case digit_value c of
        None \<Rightarrow> Inr None
      | Some digitval \<Rightarrow>
          if accumulator > (ssize_max - digitval) div 10 then
            Inl (ValueError ''Too many decimal digits in format string'')
          else get_integer_from (accumulator * 10 + digitval) cs)"

definition get_integer :: "string \<Rightarrow> exn + nat option" where
  "get_integer s = (if s = [] then Inr None else get_integer_from 0 s)"

definition digit_char :: "nat \<Rightarrow> char" where
  "digit_char d = (if d < 10 then char_of (48 + d) else char_of (87 + d))"

fun show_nat :: "nat \<Rightarrow> nat \<Rightarrow> string" where
  "show_nat base n =
     (if base < 2 \<or> n < base then [digit_char n]
      else show_nat base (n div base) @ [digit_char (n mod base)])"

datatype accessor = Attr string | Subscr subscript

datatype name_step = NoMore | Bad exn | Next accessor string

definition field_name_next :: "string \<Rightarrow> name_step" where
  "field_name_next s =
     (case s of
        [] \<Rightarrow> NoMore
      | c # cs \<Rightarrow>
          if c = CHR ''.'' then
            (let name = takeWhile (\<lambda>x. x \<noteq> CHR ''.'' \<and> x \<noteq> CHR ''['') cs;
                 rest = dropWhile (\<lambda>x. x \<noteq> CHR ''.'' \<and> x \<noteq> CHR ''['') cs
             in if name = [] then Bad (ValueError ''Empty attribute in format string'')
                else Next (Attr name) rest)
          else if c = CHR ''['' then
            (if CHR '']'' \<notin> set cs then
               Bad (ValueError (''Missing '' @ quote @ '']'' @ quote @ '' in format string''))
             else
               (let name = takeWhile (\<lambda>x. x \<noteq> CHR '']'') cs;
                    rest = tl (dropWhile (\<lambda>x. x \<noteq> CHR '']'') cs)
                in case get_integer name of
                     Inl e \<Rightarrow> Bad e
                   | Inr idx \<Rightarrow>
                       if name = [] then Bad (ValueError ''Empty attribute in format string'')
                       else Next (Subscr (case idx of None \<Rightarrow> Key name | Some i \<Rightarrow> Index i)) rest))
          else
            Bad (ValueError (''Only '' @ quote @ ''.'' @ quote @ '' or '' @ quote @ ''['' @ quote
                   @ '' may follow '' @ quote @ '']'' @ quote @ '' in format field specifier'')))"

lemma field_name_next_shorter:
  "field_name_next s = Next a rest \<Longrightarrow> length rest < length s"
  by (auto simp: field_name_next_def Let_def less_Suc_eq_le length_dropWhile_le
      split: list.splits if_splits sum.splits
      intro: le_trans [OF diff_le_self length_dropWhile_le])

definition apply_accessor :: "'o py_ops \<Rightarrow> 'o pyval \<Rightarrow> accessor \<Rightarrow> exn + 'o pyval" where
  "apply_accessor ops obj a =
     (case a of Attr name \<Rightarrow> py_getattr ops obj name | Subscr k \<Rightarrow> py_getitem ops obj k)"

function follow_accessors :: "'o py_ops \<Rightarrow> 'o pyval \<Rightarrow> string \<Rightarrow> exn + 'o pyval" where
  "follow_accessors ops obj s =
     (case field_name_next s of
        NoMore \<Rightarrow> Inr obj
      | Bad e \<Rightarrow> Inl e
      | Next a rest \<Rightarrow>
          (case apply_accessor ops obj a of
             Inl e \<Rightarrow> Inl e
           | Inr obj' \<Rightarrow> follow_accessors ops obj' rest))"
  by pat_completeness auto
termination
  by (relation "measure (\<lambda>(ops, obj, s). length s)") (auto dest: field_name_next_shorter)

declare follow_accessors.simps [simp del]

text \<open>
  The two ways \<open>render\<close> calls the formatter. \<open>Kwargs params\<close> is \<open>format(**params)\<close>: no
  positional arguments, the keyword dictionary \<open>params\<close>. \<open>DefaultDictMap params\<close> is
  \<open>format_map(DefaultDict(**params))\<close>: no positional arguments at all, and a dictionary
  whose \<open>__missing__\<close> returns \<open>"{%s}" % key\<close>.
\<close>

datatype 'o arguments = Kwargs "string \<rightharpoonup> 'o pyval" | DefaultDictMap "string \<rightharpoonup> 'o pyval"

definition get_named :: "'o arguments \<Rightarrow> string \<Rightarrow> exn + 'o pyval" where
  "get_named args key =
     (case args of
        Kwargs params \<Rightarrow> (case params key of None \<Rightarrow> Inl (KeyError key) | Some v \<Rightarrow> Inr v)
      | DefaultDictMap params \<Rightarrow>
          (case params key of None \<Rightarrow> Inr (PyStr (''{'' @ key @ ''}'')) | Some v \<Rightarrow> Inr v))"

definition get_positional :: "'o arguments \<Rightarrow> nat \<Rightarrow> exn" where
  "get_positional args index =
     (case args of
        Kwargs params \<Rightarrow>
          IndexError (''Replacement index '' @ show_nat 10 index
                        @ '' out of range for positional args tuple'')
      | DefaultDictMap params \<Rightarrow> ValueError ''Format string contains positional fields'')"

text \<open>
  An empty or numeric first part of the field name is a positional field. Neither call
  passes positional arguments, so the first positional field that is reached fails; the
  automatic numbering therefore never gets beyond index 0, and its consistency check
  (a second positional field) is never reached.
\<close>

definition get_field_object :: "'o py_ops \<Rightarrow> 'o arguments \<Rightarrow> string \<Rightarrow> exn + 'o pyval" where
  "get_field_object ops args name =
     (let first = takeWhile (\<lambda>x. x \<noteq> CHR ''.'' \<and> x \<noteq> CHR ''['') name;
          rest = dropWhile (\<lambda>x. x \<noteq> CHR ''.'' \<and> x \<noteq> CHR ''['') name
      in case get_integer first of
           Inl e \<Rightarrow> Inl e
         | Inr (Some index) \<Rightarrow> Inl (get_positional args index)
         | Inr None \<Rightarrow>
             if first = [] then Inl (get_positional args 0)
             else (case get_named args first of
                     Inl e \<Rightarrow> Inl e
                   | Inr obj \<Rightarrow> follow_accessors ops obj rest))"

definition do_conversion :: "'o py_ops \<Rightarrow> 'o pyval \<Rightarrow> char \<Rightarrow> exn + 'o pyval" where
  "do_conversion ops obj conv =
     (if conv = CHR ''r'' \<or> conv = CHR ''s'' \<or> conv = CHR ''a'' then py_convert ops conv obj
      else if 32 < (of_char conv :: nat) \<and> (of_char conv :: nat) < 127 then
        Inl (ValueError (''Unknown conversion specifier '' @ [conv]))
      else
        Inl (ValueError (''Unknown conversion specifier '' @ [CHR 0x5C] @ ''x''
                           @ show_nat 16 (of_char conv))))"

text \<open>A \<open>str\<close> with an empty format specification is written as it is.\<close>

definition render_field :: "'o py_ops \<Rightarrow> 'o pyval \<Rightarrow> string \<Rightarrow> exn + string" where
  "render_field ops obj spec =
     (case obj of
        PyStr s \<Rightarrow> if spec = [] then Inr s else py_format ops obj spec
      | PyObj x \<Rightarrow> py_format ops obj spec)"

definition output_markup ::
  "(string \<Rightarrow> exn + string) \<Rightarrow> 'o py_ops \<Rightarrow> 'o arguments \<Rightarrow> field \<Rightarrow> exn + string" where
  "output_markup expand ops args f =
     (case f of Field name conv spec needs \<Rightarrow>
        (case get_field_object ops args name of
           Inl e \<Rightarrow> Inl e
         | Inr obj \<Rightarrow>
             (case (if conv \<noteq> CHR 0x00 then do_conversion ops obj conv else Inr obj) of
                Inl e \<Rightarrow> Inl e
              | Inr obj' \<Rightarrow>
                  (case (if needs then expand spec else Inr spec) of
                     Inl e \<Rightarrow> Inl e
                   | Inr spec' \<Rightarrow> render_field ops obj' spec'))))"

section \<open>\<open>str.format\<close>: building the string\<close>

lemma scan_field_name_shorter:
  "scan_field_name skipping acc s = Inr (name, c, rest) \<Longrightarrow> length rest < length s"
proof (induction s arbitrary: skipping acc)
  case Nil
  then show ?case by simp
next
  case (Cons x xs)
  show ?case
  proof (cases skipping)
    case True
    with Cons.prems have "scan_field_name (x \<noteq> CHR '']'') (acc @ [x]) xs = Inr (name, c, rest)"
      by simp
    from Cons.IH [OF this] show ?thesis by simp
  next
    case False
    with Cons.prems show ?thesis
      by (auto split: if_splits dest: Cons.IH)
  qed
qed

lemma scan_format_spec_shorter:
  "scan_format_spec count needs acc s = Inr (spec, needs', rest) \<Longrightarrow> length rest < length s"
proof (induction s arbitrary: count needs acc)
  case Nil
  then show ?case by simp
next
  case (Cons x xs)
  then show ?case
    by (auto split: if_splits dest: Cons.IH)
qed

lemma parse_format_spec_shorter:
  "parse_format_spec name conv s = Inr (f, rest) \<Longrightarrow> length rest < length s"
  by (auto simp: parse_format_spec_def split: sum.splits dest: scan_format_spec_shorter)

lemma parse_field_shorter:
  "parse_field s = Inr (f, rest) \<Longrightarrow> length rest < length s"
  by (auto simp: parse_field_def parse_format_spec_def
      split: sum.splits if_splits list.splits
      dest!: scan_field_name_shorter scan_format_spec_shorter)

lemma markup_next_shorter:
  assumes "markup_next s = Item lit fld rest" and "s \<noteq> []"
  shows "length rest < length s"
proof (cases "dropWhile (\<lambda>c. \<not> is_brace c) s")
  case Nil
  with assms show ?thesis by (simp add: markup_next_def)
next
  case (Cons c r')
  have le: "length (dropWhile (\<lambda>c. \<not> is_brace c) s) \<le> length s"
    by (rule length_dropWhile_le)
  show ?thesis
  proof (cases r')
    case Nil
    with Cons assms show ?thesis by (simp add: markup_next_def)
  next
    case (Cons d r'')
    with \<open>dropWhile (\<lambda>c. \<not> is_brace c) s = c # r'\<close> le assms show ?thesis
      by (auto simp: markup_next_def Let_def split: if_splits sum.splits dest!: parse_field_shorter)
  qed
qed

text \<open>
  \<open>do_markup\<close>: the loop over the template. \<open>expand\<close> renders a format specification
  that itself contains fields (one level of nesting less).
\<close>

function do_markup ::
  "(string \<Rightarrow> exn + string) \<Rightarrow> 'o py_ops \<Rightarrow> 'o arguments \<Rightarrow> string \<Rightarrow> exn + string" where
  "do_markup expand ops args s =
     (if s = [] then Inr []
      else
        (case markup_next s of
           Fail e \<Rightarrow> Inl e
         | Item lit fld rest \<Rightarrow>
             (case (case fld of None \<Rightarrow> Inr [] | Some f \<Rightarrow> output_markup expand ops args f) of
                Inl e \<Rightarrow> Inl e
              | Inr out \<Rightarrow>
                  (case do_markup expand ops args rest of
                     Inl e \<Rightarrow> Inl e
                   | Inr later \<Rightarrow> Inr (lit @ out @ later)))))"
  by pat_completeness auto
termination
  by (relation "measure (\<lambda>(expand, ops, args, s). length s)") (auto dest: markup_next_shorter)

declare do_markup.simps [simp del]

fun build_string :: "'o py_ops \<Rightarrow> 'o arguments \<Rightarrow> nat \<Rightarrow> string \<Rightarrow> exn + string" where
  "build_string ops args 0 s = Inl (ValueError ''Max string recursion exceeded'')"
| "build_string ops args (Suc depth) s =
     do_markup (\<lambda>spec. build_string ops args depth spec) ops args s"

definition str_format :: "'o py_ops \<Rightarrow> string \<Rightarrow> (string \<rightharpoonup> 'o pyval) \<Rightarrow> exn + string" where
  "str_format ops template params = build_string ops (Kwargs params) (Suc (Suc 0)) template"

definition str_format_map_default ::
  "'o py_ops \<Rightarrow> string \<Rightarrow> (string \<rightharpoonup> 'o pyval) \<Rightarrow> exn + string" where
  "str_format_map_default ops template params =
     build_string ops (DefaultDictMap params) (Suc (Suc 0)) template"

section \<open>The prompt folder\<close>

text \<open>
  What \<open>yaml.safe_load\<close> returns: a \<open>str\<close>, a \<open>dict\<close>, or something else (\<open>YOther\<close> carries
  the name of any other type, such as \<open>float\<close> or \<open>date\<close>).
\<close>

datatype yaml_value =
    YStr string
  | YDict "(yaml_value \<times> yaml_value) list"
  | YList "yaml_value list"
  | YInt int
  | YBool bool
  | YNone
  | YOther string

fun type_name :: "yaml_value \<Rightarrow> string" where
  "type_name (YStr s) = ''str''"
| "type_name (YDict kvs) = ''dict''"
| "type_name (YList xs) = ''list''"
| "type_name (YInt i) = ''int''"
| "type_name (YBool b) = ''bool''"
| "type_name YNone = ''NoneType''"
| "type_name (YOther name) = name"

text \<open>
  The file system as the manager sees it from its folder. A path \<open>self._folder / rel\<close> is
  the relative part \<open>rel\<close>:
  \<^item> \<open>is_file rel\<close>: \<open>path.exists() and path.is_file()\<close>;
  \<^item> \<open>iterdir\<close>: the names of the folder's entries, in the order \<open>iterdir()\<close> yields them;
  \<^item> \<open>safe_load rel\<close>: what \<open>path.open(...)\<close> followed by \<open>yaml.safe_load\<close> returns, or the
    class name and message of the library exception (\<open>OSError\<close>, \<open>yaml.YAMLError\<close>, ...)
    that they raise;
  \<^item> \<open>path_text rel\<close>: \<open>str(path)\<close>.
\<close>

record filesystem =
  is_file :: "string \<Rightarrow> bool"
  iterdir :: "string list"
  safe_load :: "string \<Rightarrow> (string \<times> string) + yaml_value"
  path_text :: "string \<Rightarrow> string"

text \<open>\<open>PromptManager\<close>: \<open>folder\<close> is \<open>str(self._folder)\<close>.\<close>

record prompt_manager =
  folder :: string
  strict :: bool
  cache :: "string \<rightharpoonup> string"

text \<open>\<open>pathlib\<close>'s \<open>suffix\<close> and \<open>stem\<close> of an entry name, by the position of its last dot.\<close>

definition rfind :: "char \<Rightarrow> string \<Rightarrow> nat option" where
  "rfind c s =
     (let n = length (dropWhile (\<lambda>x. x \<noteq> c) (rev s)) in if n = 0 then None else Some (n - 1))"

definition py_suffix :: "string \<Rightarrow> string" where
  "py_suffix name =
     (case rfind (CHR ''.'') name of
        None \<Rightarrow> []
      | Some i \<Rightarrow> if 0 < i \<and> i + 1 < length name then drop i name else [])"

definition py_stem :: "string \<Rightarrow> string" where
  "py_stem name =
     (case rfind (CHR ''.'') name of
        None \<Rightarrow> name
      | Some i \<Rightarrow> if 0 < i \<and> i + 1 < length name then take i name else name)"

definition prompt_names :: "filesystem \<Rightarrow> string set" where
  "prompt_names fs =
     set (map py_stem
            (filter (\<lambda>path. is_file fs path \<and> py_suffix path \<in> {''.yml'', ''.yaml''})
               (iterdir fs)))"

definition list_prompts :: "filesystem \<Rightarrow> prompt_manager \<Rightarrow> string list" where
  "list_prompts fs self = sorted_list_of_set (prompt_names fs)"

definition resolve_path :: "filesystem \<Rightarrow> string \<Rightarrow> string option" where
  "resolve_path fs name = List.find (is_file fs) [name @ ''.yml'', name @ ''.yaml'']"

definition has_prompt :: "filesystem \<Rightarrow> prompt_manager \<Rightarrow> string \<Rightarrow> bool" where
  "has_prompt fs self name \<longleftrightarrow> resolve_path fs name \<noteq> None"

definition load_template_from_file :: "filesystem \<Rightarrow> string \<Rightarrow> exn + string" where
  "load_template_from_file fs path =
     (case safe_load fs path of
        Inl (cls, msg) \<Rightarrow> Inl (OtherError cls msg)
      | Inr data \<Rightarrow>
          (case data of
             YStr s \<Rightarrow> Inr s
           | YDict kvs \<Rightarrow>
               (case map_of kvs (YStr ''template'') of
                  None \<Rightarrow>
                    Inl (ValueError (''File '' @ quote @ path_text fs path @ quote
                           @ '' must contain either a plain string or a '' @ quote @ ''template''
                           @ quote @ '' key.''))
                | Some template \<Rightarrow>
                    (case template of
                       YStr t \<Rightarrow> Inr t
                     | _ \<Rightarrow>
                         Inl (ValueError (quote @ ''template'' @ quote @ '' in file '' @ quote
                                @ path_text fs path @ quote @ '' must be a string.''))))
           | _ \<Rightarrow>
               Inl (ValueError (''Unsupported YAML content type in '' @ quote @ path_text fs path
                      @ quote @ '': '' @ type_name data))))"

text \<open>The two accepted shapes of a prompt file: a string, or a mapping whose \<open>template\<close> is a string.\<close>

definition conforming :: "yaml_value \<Rightarrow> bool" where
  "conforming data =
     (case data of
        YStr s \<Rightarrow> True
      | YDict kvs \<Rightarrow> (case map_of kvs (YStr ''template'') of Some (YStr t) \<Rightarrow> True | _ \<Rightarrow> False)
      | _ \<Rightarrow> False)"

text \<open>The methods that assign to \<open>self._cache\<close> return the manager after the call.\<close>

definition get_template ::
  "filesystem \<Rightarrow> prompt_manager \<Rightarrow> string \<Rightarrow> bool \<Rightarrow> (exn + string) \<times> prompt_manager" where
  "get_template fs self name use_cache =
     (case (if use_cache then cache self name else None) of
        Some cached \<Rightarrow> (Inr cached, self)
      | None \<Rightarrow>
          (case resolve_path fs name of
             None \<Rightarrow>
               (Inl (PromptNotFoundError (''Prompt '' @ quote @ name @ quote
                       @ '' not found in folder '' @ folder self)), self)
           | Some path \<Rightarrow>
               (case load_template_from_file fs path of
                  Inl e \<Rightarrow> (Inl e, self)
                | Inr template \<Rightarrow>
                    (Inr template, self\<lparr>cache := (cache self)(name \<mapsto> template)\<rparr>))))"

definition missing_parameter :: "string \<Rightarrow> string \<Rightarrow> exn" where
  "missing_parameter missing prompt_name =
     PromptRenderError (''Missing parameter '' @ quote @ missing @ quote @ '' for prompt ''
                          @ quote @ prompt_name @ quote)"

definition error_rendering :: "string \<Rightarrow> string \<Rightarrow> exn" where
  "error_rendering prompt_name e =
     PromptRenderError (''Error rendering prompt '' @ quote @ prompt_name @ quote @ '': '' @ e)"

text \<open>
  \<open>params\<close> is the dictionary bound to \<open>**params\<close>; Python binds the keywords \<open>self\<close> and
  \<open>prompt_name\<close> to the method's own parameters, so these two keys do not occur in it. The
  first handler of the strict branch takes every \<open>KeyError\<close>, the second every other
  exception with its message.
\<close>

definition render ::
  "'o py_ops \<Rightarrow> filesystem \<Rightarrow> prompt_manager \<Rightarrow> string \<Rightarrow> (string \<rightharpoonup> 'o pyval)
     \<Rightarrow> (exn + string) \<times> prompt_manager" where
  "render ops fs self prompt_name params =
     (case get_template fs self prompt_name True of
        (Inl e, self') \<Rightarrow> (Inl e, self')
      | (Inr template, self') \<Rightarrow>
          (if strict self' then
             (case str_format ops template params of
                Inr text \<Rightarrow> Inr text
              | Inl e \<Rightarrow>
                  (case e of
                     KeyError missing \<Rightarrow> Inl (missing_parameter missing prompt_name)
                   | PromptNotFoundError msg \<Rightarrow> Inl (error_rendering prompt_name msg)
                   | PromptRenderError msg \<Rightarrow> Inl (error_rendering prompt_name msg)
                   | ValueError msg \<Rightarrow> Inl (error_rendering prompt_name msg)
                   | IndexError msg \<Rightarrow> Inl (error_rendering prompt_name msg)
                   | OtherError cls msg \<Rightarrow> Inl (error_rendering prompt_name msg)))
           else str_format_map_default ops template params,
           self'))"

definition clear_cache :: "prompt_manager \<Rightarrow> prompt_manager" where
  "clear_cache self = self\<lparr>cache := Map.empty\<rparr>"

section \<open>Templates made of text and plain placeholders\<close>

text \<open>
  The specification speaks of \<open>{key}\<close>-style placeholders in a template. Such a template
  is a list of segments: literal text, written into the file with every brace doubled,
  and placeholders \<open>{key}\<close> whose key is plain: not empty, free of the characters that
  the field syntax gives a meaning to, not made of decimal digits only, and with leading
  decimal digits, if it has any, that form a number of at most \<open>2^63 - 1\<close>.
\<close>

datatype segment = Lit string | Placeholder string

fun escape :: "string \<Rightarrow> string" where
  "escape [] = []"
| "escape (c # cs) = (if is_brace c then [c, c] else [c]) @ escape cs"

fun template_of :: "segment list \<Rightarrow> string" where
  "template_of [] = []"
| "template_of (Lit s # segs) = escape s @ template_of segs"
| "template_of (Placeholder key # segs) = ''{'' @ key @ ''}'' @ template_of segs"

fun placeholders :: "segment list \<Rightarrow> string list" where
  "placeholders [] = []"
| "placeholders (Lit s # segs) = placeholders segs"
| "placeholders (Placeholder key # segs) = key # placeholders segs"

definition is_decimal_digit :: "char \<Rightarrow> bool" where
  "is_decimal_digit c \<longleftrightarrow> CHR ''0'' \<le> c \<and> c \<le> CHR ''9''"

fun decimal_value :: "nat \<Rightarrow> string \<Rightarrow> nat" where
  "decimal_value n [] = n"
| "decimal_value n (c # cs) = decimal_value (10 * n + (of_char c - 48)) cs"

definition plain_key :: "string \<Rightarrow> bool" where
  "plain_key key \<longleftrightarrow>
     key \<noteq> [] \<and> list_all (\<lambda>c. c \<notin> set ''{}[.!:'') key
     \<and> \<not> list_all is_decimal_digit key
     \<and> decimal_value 0 (takeWhile is_decimal_digit key) \<le> 2 ^ 63 - 1"

text \<open>
  Substitution as the specification describes it: every placeholder is replaced by the
  text that \<open>text_of\<close> gives for its key, and the first key for which there is none
  decides the failure.
\<close>

definition emit :: "string \<Rightarrow> exn + string \<Rightarrow> exn + string" where
  "emit s r = (case r of Inl e \<Rightarrow> Inl e | Inr t \<Rightarrow> Inr (s @ t))"

fun substitute :: "(string \<Rightarrow> exn + string) \<Rightarrow> segment list \<Rightarrow> exn + string" where
  "substitute text_of [] = Inr []"
| "substitute text_of (Lit s # segs) = emit s (substitute text_of segs)"
| "substitute text_of (Placeholder key # segs) =
     (case text_of key of Inl e \<Rightarrow> Inl e | Inr v \<Rightarrow> emit v (substitute text_of segs))"

text \<open>The text that results when every placeholder has a text.\<close>

fun fill :: "(string \<Rightarrow> string) \<Rightarrow> segment \<Rightarrow> string" where
  "fill shown (Lit s) = s"
| "fill shown (Placeholder key) = shown key"

text \<open>
  The stringified value: \<open>format(value, "")\<close>, which for a \<open>str\<close> is the string itself and
  for any other object what its own formatting returns or raises.
\<close>

definition stringified :: "'o py_ops \<Rightarrow> 'o pyval \<Rightarrow> exn + string" where
  "stringified ops v = (case v of PyStr s \<Rightarrow> Inr s | PyObj x \<Rightarrow> py_format ops v [])"

definition field_text :: "'o py_ops \<Rightarrow> 'o arguments \<Rightarrow> string \<Rightarrow> exn + string" where
  "field_text ops args key =
     (case get_named args key of Inl e \<Rightarrow> Inl e | Inr v \<Rightarrow> stringified ops v)"

section \<open>An example folder\<close>

text \<open>
  A folder \<open>prompts\<close>: the bare-string prompt \<open>greet\<close> exists under both extensions,
  \<open>meta\<close> is the mapping form of the same text with a description, the root of \<open>numbers\<close>
  is a list, \<open>positional\<close>, \<open>brace\<close> and \<open>unclosed\<close> hold templates that are not made of
  plain placeholders, \<open>notes.txt\<close> is a file of another kind and \<open>sub.yml\<close> a directory.
  The examples pass \<open>str\<close> values to plain placeholders only, so the object protocol
  \<open>no_objects\<close> is never consulted.
\<close>

definition example_fs :: filesystem where
  "example_fs =
     \<lparr> is_file = (\<lambda>p. p \<in> set [''a.yml'', ''b.yaml'', ''greet.yml'', ''greet.yaml'', ''notes.txt'',
                                   ''meta.yml'', ''numbers.yml'', ''positional.yml'', ''brace.yml'',
                                   ''unclosed.yml'']),
       iterdir = [''b.yaml'', ''greet.yaml'', ''notes.txt'', ''unclosed.yml'', ''a.yml'', ''greet.yml'',
                  ''sub.yml'', ''meta.yml'', ''numbers.yml'', ''positional.yml'', ''brace.yml''],
       safe_load = (\<lambda>p.
         if p = ''greet.yml'' then Inr (YStr ''Hi {n}!'')
         else if p = ''greet.yaml'' then Inr (YStr ''Bye {n}!'')
         else if p = ''meta.yml'' then
           Inr (YDict [(YStr ''template'', YStr ''Hi {n}!''), (YStr ''description'', YStr ''x'')])
         else if p = ''numbers.yml'' then Inr (YList [YInt 1, YInt 2, YInt 3])
         else if p = ''positional.yml'' then Inr (YStr ''{0}'')
         else if p = ''brace.yml'' then Inr (YStr ''}{n}'')
         else if p = ''unclosed.yml'' then Inr (YStr ''Hi {n'')
         else Inr (YStr [])),
       path_text = (\<lambda>p. ''prompts/'' @ p) \<rparr>"

definition example_manager :: "bool \<Rightarrow> (string \<rightharpoonup> string) \<Rightarrow> prompt_manager" where
  "example_manager mode c = \<lparr> folder = ''prompts'', strict = mode, cache = c \<rparr>"

definition no_objects :: "unit py_ops" where
  "no_objects =
     \<lparr> py_getattr = (\<lambda>v name. Inl (OtherError ''AttributeError'' name)),
       py_getitem = (\<lambda>v k. Inl (OtherError ''TypeError'' [])),
       py_convert = (\<lambda>c v. Inl (OtherError ''TypeError'' [])),
       py_format = (\<lambda>v spec. Inl (OtherError ''TypeError'' spec)) \<rparr>"

section \<open>\<open>get_template\<close>\<close>

text \<open>
  Claim C5. If \<open>use_cache\<close> is true and the name is in the cache, \<open>get_template\<close> returns
  the cached string whatever the folder holds (no disk access) and leaves the manager as
  it is. Otherwise it resolves the name: when resolution fails it raises
  \<open>PromptNotFoundError\<close> with the name and the folder in the message and changes nothing;
  when the file loads it stores the string in the cache under the name, over any prior
  entry, and returns it.
\<close>

theorem get_template_contract:
  "(use_cache \<and> cache self name = Some cached \<longrightarrow>
      (\<forall>fs. get_template fs self name use_cache = (Inr cached, self)))
   \<and> (\<not> (use_cache \<and> name \<in> dom (cache self)) \<longrightarrow>
        (resolve_path fs name = None \<longrightarrow>
           get_template fs self name use_cache =
             (Inl (PromptNotFoundError
                     (''Prompt '' @ quote @ name @ quote @ '' not found in folder '' @ folder self)),
              self))
      \<and> (\<forall>path template.
            resolve_path fs name = Some path \<and> load_template_from_file fs path = Inr template \<longrightarrow>
              get_template fs self name use_cache =
                (Inr template, self\<lparr>cache := (cache self)(name \<mapsto> template)\<rparr>)))"
  by (auto simp: get_template_def dom_def split: option.splits)

theorem get_template_contract_witness:
  "get_template example_fs (example_manager True [''greet'' \<mapsto> ''cached text'']) ''greet'' True
     = (Inr ''cached text'', example_manager True [''greet'' \<mapsto> ''cached text''])
   \<and> get_template example_fs (example_manager True [''greet'' \<mapsto> ''cached text'']) ''greet'' False
     = (Inr ''Hi {n}!'', example_manager True [''greet'' \<mapsto> ''Hi {n}!''])
   \<and> get_template example_fs (example_manager True Map.empty) ''absent'' True
     = (Inl (PromptNotFoundError
               (''Prompt '' @ quote @ ''absent'' @ quote @ '' not found in folder prompts'')),
        example_manager True Map.empty)"
proof -
  let ?m = "example_manager True [''greet'' \<mapsto> ''cached text'']"
  have c: "True \<and> cache ?m ''greet'' = Some ''cached text''"
    by (simp add: example_manager_def)
  have r: "resolve_path example_fs ''greet'' = Some ''greet.yml''
           \<and> load_template_from_file example_fs ''greet.yml'' = Inr ''Hi {n}!''"
    by (simp add: resolve_path_def load_template_from_file_def example_fs_def)
  have n: "resolve_path example_fs ''absent'' = None"
    by (simp add: resolve_path_def example_fs_def)
  have u: "\<not> (False \<and> ''greet'' \<in> dom (cache ?m))" by simp
  have e: "\<not> (True \<and> ''absent'' \<in> dom (cache (example_manager True Map.empty)))"
    by (simp add: example_manager_def)
  from get_template_contract [of True ?m "''greet''" "''cached text''" example_fs] c
  have 1: "get_template example_fs ?m ''greet'' True = (Inr ''cached text'', ?m)" by blast
  from get_template_contract [of False ?m "''greet''" "''cached text''" example_fs] u r
  have 2: "get_template example_fs ?m ''greet'' False
             = (Inr ''Hi {n}!'', ?m\<lparr>cache := (cache ?m)(''greet'' \<mapsto> ''Hi {n}!'')\<rparr>)" by blast
  from get_template_contract [of True "example_manager True Map.empty" "''absent''" "''x''" example_fs] e n
  have 3: "get_template example_fs (example_manager True Map.empty) ''absent'' True
     = (Inl (PromptNotFoundError (''Prompt '' @ quote @ ''absent'' @ quote @ '' not found in folder ''
          @ folder (example_manager True Map.empty))), example_manager True Map.empty)" by blast
  from 1 2 3 show ?thesis by (simp add: example_manager_def)
qed

lemma load_nonconforming:
  assumes "safe_load fs path = Inr data" and "\<not> conforming data"
  shows "\<exists>msg. load_template_from_file fs path = Inl (ValueError msg)"
  using assms
  by (auto simp: load_template_from_file_def conforming_def
      split: yaml_value.splits option.splits)

text \<open>
  Claim C6. When the file that \<open>get_template\<close> loads parses to something that is neither a
  string nor a mapping with a string \<open>template\<close> (the key missing, its value not a string,
  or any other root type), \<open>get_template\<close> raises \<open>ValueError\<close>, the validation error, and
  the manager, with its cache, is returned unchanged.
\<close>

theorem invalid_file_leaves_cache:
  assumes "\<not> (use_cache \<and> name \<in> dom (cache self))"
    and "resolve_path fs name = Some path"
    and "safe_load fs path = Inr data"
    and "\<not> conforming data"
  shows "\<exists>msg. get_template fs self name use_cache = (Inl (ValueError msg), self)"
proof -
  from load_nonconforming [OF assms(3,4)] obtain msg
    where "load_template_from_file fs path = Inl (ValueError msg)" ..
  with assms(1,2) show ?thesis
    by (auto simp: get_template_def dom_def split: option.splits)
qed

theorem invalid_file_leaves_cache_witness:
  "\<exists>msg. get_template example_fs (example_manager True [''numbers'' \<mapsto> ''old'']) ''numbers'' False
          = (Inl (ValueError msg), example_manager True [''numbers'' \<mapsto> ''old''])"
proof (rule invalid_file_leaves_cache)
  show "\<not> (False \<and> ''numbers'' \<in> dom (cache (example_manager True [''numbers'' \<mapsto> ''old''])))" by simp
  show "resolve_path example_fs ''numbers'' = Some ''numbers.yml''"
    by (simp add: resolve_path_def example_fs_def)
  show "safe_load example_fs ''numbers.yml'' = Inr (YList [YInt 1, YInt 2, YInt 3])"
    by (simp add: example_fs_def)
  show "\<not> conforming (YList [YInt 1, YInt 2, YInt 3])" by (simp add: conforming_def)
qed

section \<open>Path resolution\<close>


lemma resolve_path_safe_load_update [simp]:
  "resolve_path (fs\<lparr>safe_load := f\<rparr>) name = resolve_path fs name"
  by (simp add: resolve_path_def)





section \<open>Mapping-form files\<close>

lemma load_mapping_form:
  assumes "safe_load fs path = Inr (YDict kvs)" and "map_of kvs (YStr ''template'') = Some (YStr t)"
  shows "load_template_from_file fs path = Inr t"
  using assms by (simp add: load_template_from_file_def)

lemma load_bare_string:
  assumes "safe_load fs path = Inr (YStr t)"
  shows "load_template_from_file fs path = Inr t"
  using assms by (simp add: load_template_from_file_def)

text \<open>
  Claim C8. Rewriting a bare-string prompt file in mapping form, with the same text under
  \<open>template\<close> and any other fields beside it, changes nothing: \<open>get_template\<close> and \<open>render\<close>
  return the same result and the same manager for every parameter mapping.
\<close>

theorem metadata_ignored:
  assumes "resolve_path fs name = Some path"
    and "safe_load fs path = Inr (YStr t)"
    and "map_of kvs (YStr ''template'') = Some (YStr t)"
  shows "get_template (fs\<lparr>safe_load := (safe_load fs)(path := Inr (YDict kvs))\<rparr>) self name use_cache
           = get_template fs self name use_cache
       \<and> render ops (fs\<lparr>safe_load := (safe_load fs)(path := Inr (YDict kvs))\<rparr>) self name params
           = render ops fs self name params"
proof -
  let ?fs' = "fs\<lparr>safe_load := (safe_load fs)(path := Inr (YDict kvs))\<rparr>"
  have "load_template_from_file ?fs' path = Inr t"
    by (rule load_mapping_form [OF _ assms(3)]) simp
  moreover have "load_template_from_file fs path = Inr t"
    using assms(2) by (rule load_bare_string)
  ultimately have g: "get_template ?fs' self name uc = get_template fs self name uc" for uc
    using assms(1) by (auto simp: get_template_def split: option.splits)
  then show ?thesis by (simp add: render_def)
qed

theorem metadata_ignored_witness:
  "render no_objects
     (example_fs\<lparr>safe_load := (safe_load example_fs)
        (''greet.yml'' := Inr (YDict [(YStr ''template'', YStr ''Hi {n}!''), (YStr ''description'', YStr ''x'')]))\<rparr>)
     (example_manager True Map.empty) ''greet'' [''n'' \<mapsto> PyStr ''Bob'']
   = render no_objects example_fs (example_manager True Map.empty) ''greet'' [''n'' \<mapsto> PyStr ''Bob'']"
proof -
  have a: "resolve_path example_fs ''greet'' = Some ''greet.yml''"
    by (simp add: resolve_path_def example_fs_def)
  have b: "safe_load example_fs ''greet.yml'' = Inr (YStr ''Hi {n}!'')"
    by (simp add: example_fs_def)
  have c: "map_of [(YStr ''template'', YStr ''Hi {n}!''), (YStr ''description'', YStr ''x'')]
             (YStr ''template'') = Some (YStr ''Hi {n}!'')"
    by simp
  from metadata_ignored [OF a b c] show ?thesis by blast
qed

section \<open>\<open>has_prompt\<close>\<close>

lemma load_never_not_found:
  "load_template_from_file fs path \<noteq> Inl (PromptNotFoundError msg)"
  by (auto simp: load_template_from_file_def split: sum.splits yaml_value.splits option.splits)

text \<open>
  Claim C4, as amended. \<open>has_prompt name\<close> is true exactly when \<open>get_template\<close> with
  \<open>use_cache=False\<close> does not raise \<open>PromptNotFoundError\<close>; with \<open>use_cache=True\<close> the same
  holds for a name that is not in the cache, while a cached name is returned without
  looking at the folder. \<open>has_prompt\<close> does not depend on the cache and returns no new
  manager.
\<close>

theorem has_prompt_iff_found:
  "(has_prompt fs self name \<longleftrightarrow>
      \<not> (\<exists>msg. fst (get_template fs self name False) = Inl (PromptNotFoundError msg)))
   \<and> (cache self name = None \<longrightarrow>
        (has_prompt fs self name \<longleftrightarrow>
           \<not> (\<exists>msg. fst (get_template fs self name True) = Inl (PromptNotFoundError msg))))
   \<and> (cache self name = Some cached \<longrightarrow> get_template fs self name True = (Inr cached, self))
   \<and> has_prompt fs (self\<lparr>cache := c\<rparr>) name = has_prompt fs self name"
  using load_never_not_found [of fs]
  by (auto simp: has_prompt_def get_template_def split: option.splits sum.splits)

theorem has_prompt_iff_found_witness:
  "has_prompt example_fs (example_manager True Map.empty) ''greet''
   \<and> \<not> (\<exists>msg. fst (get_template example_fs (example_manager True Map.empty) ''greet'' True)
                 = Inl (PromptNotFoundError msg))
   \<and> \<not> has_prompt example_fs (example_manager True Map.empty) ''absent''
   \<and> (\<exists>msg. fst (get_template example_fs (example_manager True Map.empty) ''absent'' False)
               = Inl (PromptNotFoundError msg))"
proof -
  let ?m = "example_manager True Map.empty"
  have g: "has_prompt example_fs ?m ''greet''"
    by (simp add: has_prompt_def resolve_path_def example_fs_def)
  have a: "\<not> has_prompt example_fs ?m ''absent''"
    by (simp add: has_prompt_def resolve_path_def example_fs_def)
  have c: "cache ?m ''greet'' = None" by (simp add: example_manager_def)
  from has_prompt_iff_found [of example_fs ?m "''greet''" "[]" "Map.empty"] g c
  have 1: "\<not> (\<exists>msg. fst (get_template example_fs ?m ''greet'' True) = Inl (PromptNotFoundError msg))"
    by blast
  from has_prompt_iff_found [of example_fs ?m "''absent''" "[]" "Map.empty"] a
  have 2: "\<exists>msg. fst (get_template example_fs ?m ''absent'' False) = Inl (PromptNotFoundError msg)"
    by blast
  from g a 1 2 show ?thesis by blast
qed

text \<open>
  The claim as stated fails for a name that is in the cache while its file is gone:
  \<open>has_prompt\<close> is false, and \<open>get_template\<close> still returns the cached text.
\<close>

theorem has_prompt_stale_cache_counterexample:
  "has_prompt example_fs (example_manager True [''gone'' \<mapsto> ''Hi'']) ''gone'' = False
   \<and> get_template example_fs (example_manager True [''gone'' \<mapsto> ''Hi'']) ''gone'' True
       = (Inr ''Hi'', example_manager True [''gone'' \<mapsto> ''Hi''])"
  by (simp add: has_prompt_def resolve_path_def get_template_def example_fs_def example_manager_def)

section \<open>\<open>list_prompts\<close>\<close>

lemma rfind_last:
  assumes "c \<notin> set ext"
  shows "rfind c (stem @ c # ext) = Some (length stem)"
proof -
  have "dropWhile (\<lambda>x. x \<noteq> c) (rev ext @ c # rev stem) = c # rev stem"
    using assms by (auto simp: dropWhile_append3)
  then show ?thesis by (simp add: rfind_def)
qed

lemma suffix_stem_of_name:
  assumes "stem \<noteq> []" and "ext \<noteq> []" and "CHR ''.'' \<notin> set ext"
  shows "py_suffix (stem @ CHR ''.'' # ext) = CHR ''.'' # ext"
    and "py_stem (stem @ CHR ''.'' # ext) = stem"
  using assms by (simp_all add: py_suffix_def py_stem_def rfind_last)

lemma suffix_decompose:
  assumes "py_suffix name = CHR ''.'' # ext"
  shows "name = py_stem name @ CHR ''.'' # ext \<and> py_stem name \<noteq> []"
proof -
  from assms obtain i where i: "rfind (CHR ''.'') name = Some i" "0 < i" "i + 1 < length name"
    and d: "drop i name = CHR ''.'' # ext"
    by (auto simp: py_suffix_def split: option.splits if_splits)
  from i have st: "py_stem name = take i name" by (simp add: py_stem_def)
  have "name = take i name @ drop i name" by simp
  with d st i show ?thesis by auto
qed

lemma recognised_suffix_iff:
  "py_suffix path \<in> {''.yml'', ''.yaml''} \<longleftrightarrow>
     (\<exists>stem. stem \<noteq> [] \<and> (path = stem @ ''.yml'' \<or> path = stem @ ''.yaml''))"
proof
  assume "py_suffix path \<in> {''.yml'', ''.yaml''}"
  then consider "py_suffix path = CHR ''.'' # ''yml''" | "py_suffix path = CHR ''.'' # ''yaml''"
    by auto
  then show "\<exists>stem. stem \<noteq> [] \<and> (path = stem @ ''.yml'' \<or> path = stem @ ''.yaml'')"
  proof cases
    case 1
    from suffix_decompose [OF 1] show ?thesis by auto
  next
    case 2
    from suffix_decompose [OF 2] show ?thesis by auto
  qed
next
  assume "\<exists>stem. stem \<noteq> [] \<and> (path = stem @ ''.yml'' \<or> path = stem @ ''.yaml'')"
  then obtain stem where "stem \<noteq> []" and "path = stem @ ''.yml'' \<or> path = stem @ ''.yaml''"
    by blast
  then show "py_suffix path \<in> {''.yml'', ''.yaml''}"
    using suffix_stem_of_name(1) [of stem "''yml''"] suffix_stem_of_name(1) [of stem "''yaml''"]
    by auto
qed

text \<open>
  Claim C7. \<open>list_prompts\<close> looks at the entries of the folder itself and keeps the regular
  files named \<open><stem>.yml\<close> or \<open><stem>.yaml\<close> with a non-empty stem; it returns their stems
  as a list without duplicates, sorted ascending in the lexicographic order of strings,
  and the result does not depend on the manager's cache (the method assigns nothing).
\<close>

theorem list_prompts_sorted_names:
  "sorted (list_prompts fs self)
   \<and> distinct (list_prompts fs self)
   \<and> set (list_prompts fs self) =
       {stem. stem \<noteq> [] \<and> (\<exists>path \<in> set (iterdir fs).
                 is_file fs path \<and> (path = stem @ ''.yml'' \<or> path = stem @ ''.yaml''))}
   \<and> list_prompts fs (self\<lparr>cache := c\<rparr>) = list_prompts fs self"
proof -
  have fin: "finite (prompt_names fs)" by (simp add: prompt_names_def)
  have names: "prompt_names fs =
       {stem. stem \<noteq> [] \<and> (\<exists>path \<in> set (iterdir fs).
                 is_file fs path \<and> (path = stem @ ''.yml'' \<or> path = stem @ ''.yaml''))}"
    (is "?L = ?R")
  proof (rule set_eqI)
    fix x
    show "x \<in> ?L \<longleftrightarrow> x \<in> ?R"
    proof
      assume "x \<in> ?L"
      then obtain path where p: "path \<in> set (iterdir fs)" "is_file fs path"
        "py_suffix path \<in> {''.yml'', ''.yaml''}" and x: "x = py_stem path"
        by (auto simp: prompt_names_def)
      from p(3) obtain stem where st: "stem \<noteq> []" "path = stem @ ''.yml'' \<or> path = stem @ ''.yaml''"
        unfolding recognised_suffix_iff by blast
      then have "py_stem path = stem"
        using suffix_stem_of_name(2) [of stem "''yml''"] suffix_stem_of_name(2) [of stem "''yaml''"]
        by auto
      with p st x show "x \<in> ?R" by auto
    next
      assume "x \<in> ?R"
      then obtain path where x: "x \<noteq> []" and p: "path \<in> set (iterdir fs)" "is_file fs path"
        "path = x @ ''.yml'' \<or> path = x @ ''.yaml''"
        by auto
      then have "py_suffix path \<in> {''.yml'', ''.yaml''}" and "py_stem path = x"
        using suffix_stem_of_name [of x "''yml''"] suffix_stem_of_name [of x "''yaml''"]
        by auto
      with p show "x \<in> ?L" by (force simp: prompt_names_def)
    qed
  qed
  show ?thesis
    using fin names by (simp add: list_prompts_def)
qed

theorem list_prompts_sorted_names_witness:
  "list_prompts example_fs (example_manager True Map.empty) = [''a'', ''b'', ''brace'', ''greet'', ''meta'', ''numbers'', ''positional'', ''unclosed'']
   \<and> sorted (list_prompts example_fs (example_manager True Map.empty))
   \<and> distinct (list_prompts example_fs (example_manager True Map.empty))
   \<and> ''greet'' \<in> set (list_prompts example_fs (example_manager True Map.empty))"
proof -
  let ?m = "example_manager True Map.empty"
  have e: "list_prompts example_fs ?m = [''a'', ''b'', ''brace'', ''greet'', ''meta'', ''numbers'', ''positional'', ''unclosed'']"
    by code_simp
  have p: "''greet'' \<noteq> [] \<and> (\<exists>path \<in> set (iterdir example_fs).
             is_file example_fs path \<and> (path = ''greet'' @ ''.yml'' \<or> path = ''greet'' @ ''.yaml''))"
    by (simp add: example_fs_def)
  from list_prompts_sorted_names [of example_fs ?m Map.empty] p
  have "sorted (list_prompts example_fs ?m) \<and> distinct (list_prompts example_fs ?m)
        \<and> ''greet'' \<in> set (list_prompts example_fs ?m)"
    by blast
  with e show ?thesis by blast
qed

section \<open>The formatter on templates of plain placeholders\<close>

lemma emit_simps [simp]:
  "emit s (Inl e) = Inl e"
  "emit s (Inr t) = Inr (s @ t)"
  by (simp_all add: emit_def)

lemma emit_Nil [simp]: "emit [] r = r"
  by (cases r) simp_all

lemma emit_emit [simp]: "emit s (emit t r) = emit (s @ t) r"
  by (cases r) simp_all

lemma do_markup_Nil [simp]: "do_markup expand ops args [] = Inr []"
  by (simp add: do_markup.simps)

lemma markup_next_text:
  assumes "\<not> is_brace c"
  shows "markup_next (c # t) =
           (case markup_next t of Fail e \<Rightarrow> Fail e | Item lit fld rest \<Rightarrow> Item (c # lit) fld rest)"
proof -
  let ?r = "dropWhile (\<lambda>c. \<not> is_brace c) t"
  have tw: "takeWhile (\<lambda>c. \<not> is_brace c) (c # t) = c # takeWhile (\<lambda>c. \<not> is_brace c) t"
    and dw: "dropWhile (\<lambda>c. \<not> is_brace c) (c # t) = ?r"
    using assms by simp_all
  show ?thesis
  proof (cases ?r)
    case Nil
    then show ?thesis unfolding markup_next_def Let_def tw dw by (simp only: list.case markup.case)
  next
    case (Cons b r')
    show ?thesis
    proof (cases r')
      case Nil
      with Cons show ?thesis
        unfolding markup_next_def Let_def tw dw by (simp only: list.case markup.case)
    next
      case (Cons d r'')
      with \<open>?r = b # r'\<close> show ?thesis
        unfolding markup_next_def Let_def tw dw
        by (simp only: list.case) (simp split: sum.split)
    qed
  qed
qed

lemma do_markup_text:
  assumes "\<not> is_brace c"
  shows "do_markup expand ops args (c # t) = emit [c] (do_markup expand ops args t)"
proof (cases "t = []")
  case True
  with assms show ?thesis
    by (simp add: do_markup.simps [of _ _ _ "[c]"] markup_next_def)
next
  case False
  then show ?thesis
    by (simp add: do_markup.simps [of _ _ _ "c # t"] do_markup.simps [of _ _ _ t]
        markup_next_text [OF assms]
        split: markup.splits option.splits sum.splits)
qed

lemma markup_next_doubled:
  assumes "is_brace b"
  shows "markup_next (b # b # t) = Item [b] None t"
  using assms by (auto simp: markup_next_def is_brace_def)

lemma do_markup_doubled:
  assumes "is_brace b"
  shows "do_markup expand ops args (b # b # t) = emit [b] (do_markup expand ops args t)"
  by (simp add: do_markup.simps [of _ _ _ "b # b # t"] markup_next_doubled [OF assms]
      split: sum.splits)

lemma do_markup_escape:
  "do_markup expand ops args (escape s @ t) = emit s (do_markup expand ops args t)"
proof (induction s)
  case Nil
  show ?case by simp
next
  case (Cons c s)
  show ?case
  proof (cases "is_brace c")
    case True
    then show ?thesis by (simp add: do_markup_doubled Cons.IH)
  next
    case False
    then show ?thesis by (simp add: do_markup_text Cons.IH)
  qed
qed

lemma scan_field_name_plain:
  assumes "list_all (\<lambda>c. c \<notin> set ''{}[.!:'') key"
  shows "scan_field_name False acc (key @ CHR ''}'' # t) = Inr (acc @ key, CHR ''}'', t)"
  using assms by (induction key arbitrary: acc) auto

lemma parse_field_plain:
  assumes "list_all (\<lambda>c. c \<notin> set ''{}[.!:'') key"
  shows "parse_field (key @ CHR ''}'' # t) = Inr (Field key (CHR 0x00) [] False, t)"
  by (simp add: parse_field_def scan_field_name_plain [OF assms])

lemma markup_next_placeholder:
  assumes "list_all (\<lambda>c. c \<notin> set ''{}[.!:'') key"
  shows "markup_next (CHR ''{'' # key @ CHR ''}'' # t) =
           Item [] (Some (Field key (CHR 0x00) [] False)) t"
proof (cases key)
  case Nil
  then show ?thesis
    by (simp add: markup_next_def is_brace_def parse_field_def)
next
  case (Cons d ds)
  with assms have "d \<noteq> CHR ''{''" by simp
  with parse_field_plain [OF assms, of t] Cons show ?thesis
    by (simp add: markup_next_def is_brace_def)
qed

lemma follow_accessors_Nil [simp]: "follow_accessors ops obj [] = Inr obj"
  by (simp add: follow_accessors.simps field_name_next_def)

lemma decimal_value_grows: "n \<le> decimal_value n s"
proof (induction s arbitrary: n)
  case Nil
  show ?case by simp
next
  case (Cons c cs)
  have "n \<le> 10 * n + (of_char c - 48)" by simp
  also have "\<dots> \<le> decimal_value (10 * n + (of_char c - 48)) cs" by (rule Cons.IH)
  finally show ?case by simp
qed

lemma get_integer_from_name:
  assumes "\<not> list_all is_decimal_digit s"
    and "decimal_value accumulator (takeWhile is_decimal_digit s) \<le> ssize_max"
  shows "get_integer_from accumulator s = Inr None"
  using assms
proof (induction s arbitrary: accumulator)
  case Nil
  then show ?case by simp
next
  case (Cons c cs)
  show ?case
  proof (cases "is_decimal_digit c")
    case False
    then have "digit_value c = None"
      by (simp add: digit_value_def is_decimal_digit_def)
    then show ?thesis by simp
  next
    case True
    let ?d = "of_char c - (48 :: nat)"
    from True have dv: "digit_value c = Some ?d"
      by (simp add: digit_value_def is_decimal_digit_def)
    from True Cons.prems have rest: "\<not> list_all is_decimal_digit cs"
      and bound: "decimal_value (10 * accumulator + ?d) (takeWhile is_decimal_digit cs) \<le> ssize_max"
      by simp_all
    have "10 * accumulator + ?d \<le> decimal_value (10 * accumulator + ?d) (takeWhile is_decimal_digit cs)"
      by (rule decimal_value_grows)
    with bound have "10 * accumulator + ?d \<le> ssize_max" by simp
    then have "\<not> accumulator > (ssize_max - ?d) div 10" by arith
    moreover have "get_integer_from (10 * accumulator + ?d) cs = Inr None"
      using rest bound by (rule Cons.IH)
    ultimately show ?thesis by (simp add: dv mult.commute)
  qed
qed

lemma plain_key_is_name:
  assumes "plain_key key"
  shows "get_integer key = Inr None"
proof -
  from assms have "key \<noteq> []" and "\<not> list_all is_decimal_digit key"
    and "decimal_value 0 (takeWhile is_decimal_digit key) \<le> ssize_max"
    by (simp_all add: plain_key_def ssize_max_def)
  then show ?thesis
    by (simp add: get_integer_def get_integer_from_name)
qed

lemma render_field_stringified: "render_field ops v [] = stringified ops v"
  by (simp add: render_field_def stringified_def split: pyval.splits)

lemma get_field_object_plain:
  assumes "plain_key key"
  shows "get_field_object ops args key = get_named args key"
proof -
  from assms have all: "list_all (\<lambda>c. c \<notin> set ''{}[.!:'') key"
    and ne: "key \<noteq> []"
    by (simp_all add: plain_key_def)
  from assms have int: "get_integer key = Inr None"
    by (rule plain_key_is_name)
  from all have "\<forall>x \<in> set key. x \<noteq> CHR ''.'' \<and> x \<noteq> CHR ''[''"
    by (auto simp: list_all_iff)
  then have tw: "takeWhile (\<lambda>x. x \<noteq> CHR ''.'' \<and> x \<noteq> CHR ''['') key = key"
    and dw: "dropWhile (\<lambda>x. x \<noteq> CHR ''.'' \<and> x \<noteq> CHR ''['') key = []"
    by simp_all
  show ?thesis
    by (simp add: get_field_object_def tw dw int ne split: sum.splits)
qed

lemma output_markup_plain:
  assumes "plain_key key"
  shows "output_markup expand ops args (Field key (CHR 0x00) [] False) = field_text ops args key"
  by (simp add: output_markup_def get_field_object_plain [OF assms] field_text_def
      render_field_stringified split: sum.splits)

lemma do_markup_placeholder:
  assumes "plain_key key"
  shows "do_markup expand ops args (CHR ''{'' # key @ CHR ''}'' # t) =
           (case field_text ops args key of
              Inl e \<Rightarrow> Inl e
            | Inr v \<Rightarrow> emit v (do_markup expand ops args t))"
proof -
  from assms have all: "list_all (\<lambda>c. c \<notin> set ''{}[.!:'') key"
    by (simp add: plain_key_def)
  show ?thesis
    by (simp add: do_markup.simps [of _ _ _ "CHR ''{'' # key @ CHR ''}'' # t"]
        markup_next_placeholder [OF all] output_markup_plain [OF assms]
        split: sum.splits)
qed

lemma do_markup_segments:
  assumes "list_all plain_key (placeholders segs)"
  shows "do_markup expand ops args (template_of segs @ t) =
           (case substitute (field_text ops args) segs of
              Inl e \<Rightarrow> Inl e
            | Inr r \<Rightarrow> emit r (do_markup expand ops args t))"
  using assms
proof (induction segs rule: template_of.induct)
  case 1
  show ?case by simp
next
  case (2 s segs)
  then show ?case
    by (simp add: do_markup_escape split: sum.splits)
next
  case (3 key segs)
  then show ?case
    by (simp add: do_markup_placeholder split: sum.splits)
qed

lemma template_of_alone:
  assumes "list_all plain_key (placeholders segs)"
  shows "do_markup expand ops args (template_of segs) = substitute (field_text ops args) segs"
  using do_markup_segments [OF assms, of expand ops args "[]"]
  by (cases "substitute (field_text ops args) segs") simp_all

lemma str_format_segments:
  assumes "list_all plain_key (placeholders segs)"
  shows "str_format ops (template_of segs) params = substitute (field_text ops (Kwargs params)) segs"
  by (simp add: str_format_def template_of_alone [OF assms])

lemma str_format_map_default_segments:
  assumes "list_all plain_key (placeholders segs)"
  shows "str_format_map_default ops (template_of segs) params =
           substitute (field_text ops (DefaultDictMap params)) segs"
  by (simp add: str_format_map_default_def template_of_alone [OF assms])

lemma substitute_all_found:
  assumes "\<forall>key \<in> set (placeholders segs). text_of key = Inr (shown key)"
  shows "substitute text_of segs = Inr (concat (map (fill shown) segs))"
  using assms by (induction segs rule: template_of.induct) simp_all

lemma get_template_strict [simp]:
  "strict (snd (get_template fs self name use_cache)) = strict self"
  by (simp add: get_template_def split: option.splits sum.splits)

lemma example_manager_fields [simp]:
  "folder (example_manager mode c) = ''prompts''"
  "strict (example_manager mode c) = mode"
  "cache (example_manager mode c) = c"
  by (simp_all add: example_manager_def)

section \<open>\<open>render\<close>\<close>

text \<open>
  Claim C1, as amended. In strict mode, for a template made of literal text (every brace
  of the text doubled) and plain placeholders whose keys are all in \<open>params\<close>, with values
  whose stringification does not raise, \<open>render\<close> returns the text in which every
  placeholder is replaced by the stringified value of \<open>params[key]\<close>; in particular the
  bare-string file \<open>Hi {n}!\<close> rendered with \<open>n = "Bob"\<close> gives \<open>Hi Bob!\<close>. Here \<open>shown key\<close>
  is the stringified value of \<open>params[key]\<close>.
\<close>

theorem strict_render_substitutes:
  assumes "get_template fs self name True = (Inr (template_of segs), self')"
    and "strict self"
    and "\<forall>key \<in> set (placeholders segs).
           plain_key key \<and> (\<exists>v. params key = Some v \<and> stringified ops v = Inr (shown key))"
  shows "render ops fs self name params = (Inr (concat (map (fill shown) segs)), self')"
proof -
  from assms(3) have plain: "list_all plain_key (placeholders segs)"
    by (simp add: list_all_iff)
  from assms(3) have "\<forall>key \<in> set (placeholders segs).
      field_text ops (Kwargs params) key = Inr (shown key)"
    by (auto simp: field_text_def get_named_def)
  then have "str_format ops (template_of segs) params = Inr (concat (map (fill shown) segs))"
    unfolding str_format_segments [OF plain] by (rule substitute_all_found)
  moreover have "strict self'"
    using get_template_strict [of fs self name True] assms(1,2) by simp
  ultimately show ?thesis
    using assms(1) by (simp add: render_def)
qed

theorem strict_render_substitutes_witness:
  "render no_objects example_fs (example_manager True Map.empty) ''greet'' [''n'' \<mapsto> PyStr ''Bob'']
     = (Inr ''Hi Bob!'', example_manager True [''greet'' \<mapsto> ''Hi {n}!''])"
proof -
  let ?m = "example_manager True Map.empty"
  let ?m' = "example_manager True [''greet'' \<mapsto> ''Hi {n}!'']"
  let ?segs = "[Lit ''Hi '', Placeholder ''n'', Lit ''!'']"
  have g: "get_template example_fs ?m ''greet'' True = (Inr (template_of ?segs), ?m')"
    by (simp add: get_template_def resolve_path_def load_template_from_file_def example_fs_def
        example_manager_def is_brace_def)
  have s: "strict ?m" by (simp add: example_manager_def)
  have k: "\<forall>key \<in> set (placeholders ?segs). plain_key key
             \<and> (\<exists>v. [''n'' \<mapsto> PyStr ''Bob''] key = Some v
                    \<and> stringified no_objects v = Inr ((\<lambda>key. ''Bob'') key))"
    by (simp add: plain_key_def is_decimal_digit_def stringified_def)
  note strict_render_substitutes [where params = "[''n'' \<mapsto> PyStr ''Bob'']"
      and shown = "\<lambda>key. ''Bob''", OF g s k]
  then show ?thesis by simp
qed

lemma digit_char_zero: "digit_char 0 = CHR ''0''"
proof -
  have "char_of (48 :: nat) = CHR ''0''" by code_simp
  then show ?thesis by (simp add: digit_char_def)
qed

text \<open>
  The claim as stated fails for a key that the field syntax reads as a number: \<open>{0}\<close> is
  a positional field, and \<open>format(**params)\<close> passes no positional arguments, so with the
  key \<open>0\<close> in \<open>params\<close> the placeholder is not substituted and \<open>render\<close> raises
  \<open>PromptRenderError\<close>.
\<close>

theorem strict_numeric_key_counterexample:
  "render no_objects example_fs (example_manager True Map.empty) ''positional'' [''0'' \<mapsto> PyStr ''x'']
     = (Inl (PromptRenderError
               (''Error rendering prompt '' @ quote @ ''positional'' @ quote
                  @ '': Replacement index 0 out of range for positional args tuple'')),
        example_manager True [''positional'' \<mapsto> ''{0}''])"
proof -
  have g: "get_template example_fs (example_manager True Map.empty) ''positional'' True
             = (Inr ''{0}'', example_manager True [''positional'' \<mapsto> ''{0}''])"
    by (simp add: get_template_def resolve_path_def load_template_from_file_def example_fs_def
        example_manager_def)
  have f: "str_format no_objects ''{0}'' [''0'' \<mapsto> PyStr ''x'']
             = Inl (IndexError ''Replacement index 0 out of range for positional args tuple'')"
    by (simp add: str_format_def do_markup.simps markup_next_def is_brace_def
        parse_field_def output_markup_def get_field_object_def get_integer_def digit_value_def
        ssize_max_def get_positional_def digit_char_zero)
  show ?thesis by (simp add: render_def g f error_rendering_def)
qed

lemma str_format_missing_key:
  assumes "list_all plain_key (placeholders segs)"
    and "\<forall>k \<in> set (placeholders segs). field_text ops (Kwargs params) k = Inr (shown k)"
    and "plain_key key" and "params key = None"
  shows "str_format ops (template_of segs @ CHR ''{'' # key @ CHR ''}'' # rest) params
           = Inl (KeyError key)"
proof -
  have "substitute (field_text ops (Kwargs params)) segs = Inr (concat (map (fill shown) segs))"
    using assms(2) by (rule substitute_all_found)
  moreover have "field_text ops (Kwargs params) key = Inl (KeyError key)"
    using assms(4) by (simp add: field_text_def get_named_def)
  ultimately show ?thesis
    by (simp add: str_format_def do_markup_segments [OF assms(1)] do_markup_placeholder [OF assms(3)])
qed

text \<open>
  Claim C3, as amended. In strict mode, when the template begins with literal text and
  plain placeholders whose keys are in \<open>params\<close>, with values whose stringification does
  not raise, and then comes to a plain placeholder whose key is absent, whatever follows
  it, \<open>render\<close> raises \<open>PromptRenderError\<close> with the message
  \<open>Missing parameter '<key>' for prompt '<name>'\<close>: the first missing key and the prompt
  name.
\<close>

theorem strict_render_missing_key:
  assumes "get_template fs self name True =
             (Inr (template_of segs @ ''{'' @ key @ ''}'' @ rest), self')"
    and "strict self"
    and "\<forall>k \<in> set (placeholders segs).
           plain_key k \<and> (\<exists>v. params k = Some v \<and> stringified ops v = Inr (shown k))"
    and "plain_key key"
    and "params key = None"
  shows "render ops fs self name params =
           (Inl (PromptRenderError
                   (''Missing parameter '' @ quote @ key @ quote @ '' for prompt ''
                      @ quote @ name @ quote)),
            self')"
proof -
  from assms(3) have plain: "list_all plain_key (placeholders segs)"
    by (simp add: list_all_iff)
  from assms(3) have found: "\<forall>k \<in> set (placeholders segs).
      field_text ops (Kwargs params) k = Inr (shown k)"
    by (auto simp: field_text_def get_named_def)
  have "str_format ops (template_of segs @ CHR ''{'' # key @ CHR ''}'' # rest) params
          = Inl (KeyError key)"
    using plain found assms(4,5) by (rule str_format_missing_key)
  moreover have "strict self'"
    using get_template_strict [of fs self name True] assms(1,2) by simp
  ultimately show ?thesis
    using assms(1) by (simp add: render_def missing_parameter_def)
qed

theorem strict_render_missing_key_witness:
  "render no_objects example_fs (example_manager True Map.empty) ''greet'' Map.empty
     = (Inl (PromptRenderError
               (''Missing parameter '' @ quote @ ''n'' @ quote @ '' for prompt ''
                  @ quote @ ''greet'' @ quote)),
        example_manager True [''greet'' \<mapsto> ''Hi {n}!''])"
proof -
  let ?m = "example_manager True Map.empty"
  let ?m' = "example_manager True [''greet'' \<mapsto> ''Hi {n}!'']"
  have g: "get_template example_fs ?m ''greet'' True
             = (Inr (template_of [Lit ''Hi ''] @ ''{'' @ ''n'' @ ''}'' @ ''!''), ?m')"
    by (simp add: get_template_def resolve_path_def load_template_from_file_def example_fs_def
        example_manager_def is_brace_def)
  have s: "strict ?m" by simp
  have p: "\<forall>k \<in> set (placeholders [Lit ''Hi '']). plain_key k
             \<and> (\<exists>v. (Map.empty :: string \<rightharpoonup> unit pyval) k = Some v
                    \<and> stringified no_objects v = Inr ((\<lambda>k. []) k))"
    by simp
  have k: "plain_key ''n''"
    by (simp add: plain_key_def is_decimal_digit_def)
  have n: "(Map.empty :: string \<rightharpoonup> unit pyval) ''n'' = None" by simp
  from strict_render_missing_key [OF g s p k n] show ?thesis .
qed

text \<open>
  The claim as stated fails when something else fails first: in \<open>}{n}\<close> the key \<open>n\<close> is
  absent, and the stray brace in front of the placeholder makes the error the general
  one, whose message names the prompt and the cause but not the key.
\<close>

theorem strict_stray_brace_counterexample:
  "render no_objects example_fs (example_manager True Map.empty) ''brace'' Map.empty
     = (Inl (PromptRenderError
               (''Error rendering prompt '' @ quote @ ''brace'' @ quote @ '': Single '' @ quote
                  @ ''}'' @ quote @ '' encountered in format string'')),
        example_manager True [''brace'' \<mapsto> ''}{n}''])
   \<and> ''Error rendering prompt '' @ quote @ ''brace'' @ quote @ '': Single '' @ quote
         @ ''}'' @ quote @ '' encountered in format string''
       \<noteq> ''Missing parameter '' @ quote @ ''n'' @ quote @ '' for prompt '' @ quote @ ''brace'' @ quote"
proof -
  have g: "get_template example_fs (example_manager True Map.empty) ''brace'' True
             = (Inr ''}{n}'', example_manager True [''brace'' \<mapsto> ''}{n}''])"
    by (simp add: get_template_def resolve_path_def load_template_from_file_def example_fs_def
        example_manager_def)
  have f: "str_format no_objects ''}{n}'' (Map.empty :: string \<rightharpoonup> unit pyval)
             = Inl (ValueError (''Single '' @ quote @ ''}'' @ quote
                                  @ '' encountered in format string''))"
    by (simp add: str_format_def do_markup.simps markup_next_def is_brace_def)
  show ?thesis by (simp add: render_def g f error_rendering_def)
qed

lemma str_format_map_default_found:
  assumes "list_all plain_key (placeholders segs)"
    and "\<forall>key \<in> set (placeholders segs). field_text ops (DefaultDictMap params) key = Inr (shown key)"
  shows "str_format_map_default ops (template_of segs) params = Inr (concat (map (fill shown) segs))"
  unfolding str_format_map_default_segments [OF assms(1)]
  using assms(2) by (rule substitute_all_found)

text \<open>
  Claim C2, as amended. In lenient mode, for every template made of literal text (every
  brace of the text doubled) and plain placeholders, and for every parameter mapping in
  which the values of the template's keys stringify without raising, \<open>render\<close> returns the
  text in which each placeholder whose key is in \<open>params\<close> is replaced by the stringified
  value and each placeholder whose key is absent stays as \<open>{key}\<close>; looking up an absent
  key never fails, it gives the text \<open>{key}\<close>. Here \<open>shown key\<close> is the stringified value
  for a key in \<open>params\<close> and \<open>{key}\<close> for an absent one.
\<close>

theorem lenient_render_substitutes:
  assumes "get_template fs self name True = (Inr (template_of segs), self')"
    and "\<not> strict self"
    and "\<forall>key \<in> set (placeholders segs).
           plain_key key \<and>
           (case params key of
              None \<Rightarrow> shown key = ''{'' @ key @ ''}''
            | Some v \<Rightarrow> stringified ops v = Inr (shown key))"
  shows "render ops fs self name params = (Inr (concat (map (fill shown) segs)), self')
       \<and> (\<forall>key. params key = None \<longrightarrow>
             get_named (DefaultDictMap params) key = Inr (PyStr (''{'' @ key @ ''}'')))"
proof -
  from assms(3) have plain: "list_all plain_key (placeholders segs)"
    by (simp add: list_all_iff)
  from assms(3) have "\<forall>key \<in> set (placeholders segs).
      field_text ops (DefaultDictMap params) key = Inr (shown key)"
    by (auto simp: field_text_def get_named_def stringified_def split: option.splits)
  with plain have "str_format_map_default ops (template_of segs) params
      = Inr (concat (map (fill shown) segs))"
    by (rule str_format_map_default_found)
  moreover have "\<not> strict self'"
    using get_template_strict [of fs self name True] assms(1,2) by simp
  ultimately show ?thesis
    using assms(1) by (simp add: render_def get_named_def)
qed

theorem lenient_render_substitutes_witness:
  "render no_objects example_fs (example_manager False Map.empty) ''greet'' Map.empty
     = (Inr ''Hi {n}!'', example_manager False [''greet'' \<mapsto> ''Hi {n}!''])
   \<and> render no_objects example_fs (example_manager False Map.empty) ''greet'' [''n'' \<mapsto> PyStr ''Bob'']
     = (Inr ''Hi Bob!'', example_manager False [''greet'' \<mapsto> ''Hi {n}!''])"
proof -
  let ?m = "example_manager False Map.empty"
  let ?m' = "example_manager False [''greet'' \<mapsto> ''Hi {n}!'']"
  let ?segs = "[Lit ''Hi '', Placeholder ''n'', Lit ''!'']"
  have g: "get_template example_fs ?m ''greet'' True = (Inr (template_of ?segs), ?m')"
    by (simp add: get_template_def resolve_path_def load_template_from_file_def example_fs_def
        example_manager_def is_brace_def)
  have s: "\<not> strict ?m" by (simp add: example_manager_def)
  have absent: "\<forall>key \<in> set (placeholders ?segs). plain_key key
             \<and> (case (Map.empty :: string \<rightharpoonup> unit pyval) key of
                  None \<Rightarrow> (\<lambda>key. ''{n}'') key = ''{'' @ key @ ''}''
                | Some v \<Rightarrow> stringified no_objects v = Inr ((\<lambda>key. ''{n}'') key))"
    by (simp add: plain_key_def is_decimal_digit_def)
  have present: "\<forall>key \<in> set (placeholders ?segs). plain_key key
             \<and> (case [''n'' \<mapsto> PyStr ''Bob''] key of
                  None \<Rightarrow> (\<lambda>key. ''Bob'') key = ''{'' @ key @ ''}''
                | Some v \<Rightarrow> stringified no_objects v = Inr ((\<lambda>key. ''Bob'') key))"
    by (simp add: plain_key_def is_decimal_digit_def stringified_def)
  note lenient_render_substitutes [where params = "Map.empty" and shown = "\<lambda>key. ''{n}''",
      OF g s absent]
  moreover
  note lenient_render_substitutes [where params = "[''n'' \<mapsto> PyStr ''Bob'']"
      and shown = "\<lambda>key. ''Bob''", OF g s present]
  ultimately show ?thesis by simp
qed

text \<open>
  The claim as stated, for every template, fails on a positional placeholder: \<open>format_map\<close>
  has no positional arguments, so \<open>{0}\<close> is neither substituted nor left in the output,
  it raises \<open>ValueError\<close>.
\<close>

theorem lenient_positional_counterexample:
  "render no_objects example_fs (example_manager False Map.empty) ''positional'' Map.empty
     = (Inl (ValueError ''Format string contains positional fields''),
        example_manager False [''positional'' \<mapsto> ''{0}''])"
proof -
  have g: "get_template example_fs (example_manager False Map.empty) ''positional'' True
             = (Inr ''{0}'', example_manager False [''positional'' \<mapsto> ''{0}''])"
    by (simp add: get_template_def resolve_path_def load_template_from_file_def example_fs_def
        example_manager_def)
  have f: "str_format_map_default no_objects ''{0}'' (Map.empty :: string \<rightharpoonup> unit pyval)
             = Inl (ValueError ''Format string contains positional fields'')"
    by (simp add: str_format_map_default_def do_markup.simps markup_next_def is_brace_def
        parse_field_def output_markup_def get_field_object_def get_integer_def digit_value_def
        ssize_max_def get_positional_def)
  show ?thesis by (simp add: render_def g f)
qed

lemma scan_field_name_unclosed:
  assumes "list_all (\<lambda>c. c \<notin> set ''{}[:!'') body"
  shows "scan_field_name False acc body =
           Inl (ValueError (''expected '' @ quote @ ''}'' @ quote @ '' before end of string''))"
  using assms by (induction body arbitrary: acc) auto

lemma do_markup_unclosed:
  assumes "body \<noteq> []" and "list_all (\<lambda>c. c \<notin> set ''{}[:!'') body"
  shows "do_markup expand ops args (escape lit @ CHR ''{'' # body) =
           Inl (ValueError (''expected '' @ quote @ ''}'' @ quote @ '' before end of string''))"
proof -
  from assms obtain d ds where body: "body = d # ds" and d: "d \<noteq> CHR ''{''"
    by (cases body) auto
  have "parse_field body =
          Inl (ValueError (''expected '' @ quote @ ''}'' @ quote @ '' before end of string''))"
    by (simp add: parse_field_def scan_field_name_unclosed [OF assms(2)])
  with d have "markup_next (CHR ''{'' # body) =
          Fail (ValueError (''expected '' @ quote @ ''}'' @ quote @ '' before end of string''))"
    unfolding body by (simp add: markup_next_def is_brace_def)
  then have "do_markup expand ops args (CHR ''{'' # body) =
          Inl (ValueError (''expected '' @ quote @ ''}'' @ quote @ '' before end of string''))"
    by (simp add: do_markup.simps [of _ _ _ "CHR ''{'' # body"])
  then show ?thesis by (simp add: do_markup_escape)
qed

text \<open>
  Claim C10. In lenient mode \<open>render\<close> returns whatever \<open>format_map\<close> returns or raises,
  unwrapped. For a template with a placeholder that is never closed (text, then \<open>{\<close> and
  a name up to the end of the string) that is the formatter's \<open>ValueError\<close>
  \<open>expected '}' before end of string\<close>, whereas strict mode wraps the same failure in
  \<open>PromptRenderError\<close>.
\<close>

theorem lenient_raises_format_error:
  assumes "get_template fs self name True = (Inr template, self')"
  shows "(\<not> strict self \<longrightarrow>
            render ops fs self name params = (str_format_map_default ops template params, self'))
       \<and> (template = escape lit @ ''{'' @ body \<and> body \<noteq> []
            \<and> list_all (\<lambda>c. c \<notin> set ''{}[:!'') body \<longrightarrow>
          render ops fs self name params =
            (if strict self then
               Inl (PromptRenderError
                      (''Error rendering prompt '' @ quote @ name @ quote @ '': expected '' @ quote
                         @ ''}'' @ quote @ '' before end of string''))
             else
               Inl (ValueError (''expected '' @ quote @ ''}'' @ quote @ '' before end of string'')),
             self'))"
proof -
  have s: "strict self' = strict self"
    using get_template_strict [of fs self name True] assms by simp
  have 1: "\<not> strict self \<longrightarrow>
            render ops fs self name params = (str_format_map_default ops template params, self')"
    using assms s by (simp add: render_def)
  have 2: "render ops fs self name params =
            (if strict self then
               Inl (PromptRenderError
                      (''Error rendering prompt '' @ quote @ name @ quote @ '': expected '' @ quote
                         @ ''}'' @ quote @ '' before end of string''))
             else
               Inl (ValueError (''expected '' @ quote @ ''}'' @ quote @ '' before end of string'')),
             self')"
    if t: "template = escape lit @ ''{'' @ body" and b: "body \<noteq> []"
      and a: "list_all (\<lambda>c. c \<notin> set ''{}[:!'') body"
  proof -
    have "str_format ops template params =
            Inl (ValueError (''expected '' @ quote @ ''}'' @ quote @ '' before end of string''))"
      and "str_format_map_default ops template params =
            Inl (ValueError (''expected '' @ quote @ ''}'' @ quote @ '' before end of string''))"
      using do_markup_unclosed [OF b a] t
      by (simp_all add: str_format_def str_format_map_default_def)
    then show ?thesis
      using assms s by (simp add: render_def error_rendering_def)
  qed
  from 1 2 show ?thesis by blast
qed

theorem lenient_raises_format_error_witness:
  "render no_objects example_fs (example_manager False Map.empty) ''unclosed'' [''n'' \<mapsto> PyStr ''Bob'']
     = (Inl (ValueError (''expected '' @ quote @ ''}'' @ quote @ '' before end of string'')),
        example_manager False [''unclosed'' \<mapsto> ''Hi {n''])
   \<and> render no_objects example_fs (example_manager True Map.empty) ''unclosed'' [''n'' \<mapsto> PyStr ''Bob'']
     = (Inl (PromptRenderError
               (''Error rendering prompt '' @ quote @ ''unclosed'' @ quote @ '': expected '' @ quote
                  @ ''}'' @ quote @ '' before end of string'')),
        example_manager True [''unclosed'' \<mapsto> ''Hi {n''])"
proof -
  have g: "get_template example_fs (example_manager mode Map.empty) ''unclosed'' True
             = (Inr ''Hi {n'', example_manager mode [''unclosed'' \<mapsto> ''Hi {n''])" for mode
    by (simp add: get_template_def resolve_path_def load_template_from_file_def example_fs_def
        example_manager_def)
  from lenient_raises_format_error [OF g [of False], where lit = "''Hi ''" and body = "''n''"
      and ops = no_objects and params = "[''n'' \<mapsto> PyStr ''Bob'']", THEN conjunct2]
  have 1: "render no_objects example_fs (example_manager False Map.empty) ''unclosed''
             [''n'' \<mapsto> PyStr ''Bob'']
     = (Inl (ValueError (''expected '' @ quote @ ''}'' @ quote @ '' before end of string'')),
        example_manager False [''unclosed'' \<mapsto> ''Hi {n''])"
    by (simp add: is_brace_def)
  from lenient_raises_format_error [OF g [of True], where lit = "''Hi ''" and body = "''n''"
      and ops = no_objects and params = "[''n'' \<mapsto> PyStr ''Bob'']", THEN conjunct2]
  have 2: "render no_objects example_fs (example_manager True Map.empty) ''unclosed''
             [''n'' \<mapsto> PyStr ''Bob'']
     = (Inl (PromptRenderError
               (''Error rendering prompt '' @ quote @ ''unclosed'' @ quote @ '': expected '' @ quote
                  @ ''}'' @ quote @ '' before end of string'')),
        example_manager True [''unclosed'' \<mapsto> ''Hi {n''])"
    by (simp add: is_brace_def)
  from 1 2 show ?thesis by blast
qed

end
